theory Spec2Isabelle
  imports Main "HOL-Library.Word" "HOL-Library.Signed_Division"
begin

unbundle bit_operations_syntax

section \<open>Buffers and C values\<close>

text \<open>
  \<open>int16_t\<close> samples are 16-bit words read as two's complement with \<open>sint\<close>;
  \<open>uint8_t\<close> bytes are 8-bit words. A C \<open>int\<close> that is only passed along or compared
  is its value as an \<open>int\<close>; where the source converts a \<open>size_t\<close> to \<open>int\<close> or multiplies
  an \<open>int\<close>, the 32-bit wrap-around is written out with \<open>32 word\<close>.

  A pointer argument is \<open>None\<close> when it is \<open>NULL\<close> and \<open>Some\<close> of what it points to
  otherwise: \<open>Some c\<close> for a context pointer whose context is in state \<open>c\<close>, \<open>Some xs\<close>
  for a buffer pointer whose cells hold \<open>xs\<close>.
\<close>

type_synonym sample = "16 word"
type_synonym byte = "8 word"

text \<open>
  Storing the sequence \<open>xs\<close> at the start of a buffer: the buffer keeps its size, and the
  cells behind the stored sequence keep their content.
\<close>

definition write_buf :: "'a list \<Rightarrow> 'a list \<Rightarrow> 'a list" where
  "write_buf buf xs = take (length buf) (xs @ drop (length xs) buf)"

text \<open>
  The functions declared in \<open>g722_encoder.h\<close> and \<open>g722_decoder.h\<close>, as the shim and the
  addon call them. Their bodies are not part of the sources, so the shim and the addon
  take them as arguments. A codec call returns its \<open>int\<close> result together with the
  context and the output buffer as the call leaves them.
\<close>

type_synonym 'c encode_fn =
  "'c option \<Rightarrow> sample list option \<Rightarrow> int \<Rightarrow> byte list option
     \<Rightarrow> int \<times> 'c option \<times> byte list option"

type_synonym 'c decode_fn =
  "'c option \<Rightarrow> byte list option \<Rightarrow> int \<Rightarrow> sample list option
     \<Rightarrow> int \<times> 'c option \<times> sample list option"

type_synonym 'c new_fn = "int \<Rightarrow> int \<Rightarrow> 'c option"

type_synonym ('c, 'w) destroy_fn = "'c \<Rightarrow> 'w \<Rightarrow> 'w"


section \<open>The WebAssembly shim (src/native/g722/g722_wasm_shim.c)\<close>

definition g722_wasm_enc_new :: "'c new_fn \<Rightarrow> int \<Rightarrow> int \<Rightarrow> 'c option" where
  "g722_wasm_enc_new g722_encoder_new rate options = g722_encoder_new rate options"

text \<open>
  \<open>'w\<close> is whatever the codec's destroy function acts on (the allocator's state): the
  shim hands the context to it only when the pointer is not \<open>NULL\<close>.
\<close>

definition g722_wasm_enc_destroy :: "('c, 'w) destroy_fn \<Rightarrow> 'c option \<Rightarrow> 'w \<Rightarrow> 'w" where
  "g722_wasm_enc_destroy g722_encoder_destroy ctx world =
     (case ctx of
        Some c \<Rightarrow> g722_encoder_destroy c world
      | None \<Rightarrow> world)"

definition g722_wasm_encode ::
  "'c encode_fn \<Rightarrow> 'c option \<Rightarrow> sample list option \<Rightarrow> int \<Rightarrow> byte list option
     \<Rightarrow> int \<times> 'c option \<times> byte list option" where
  "g722_wasm_encode g722_encode ctx amp len out_bytes =
     (if ctx = None \<or> amp = None \<or> out_bytes = None
      then (- 1, ctx, out_bytes)
      else g722_encode ctx amp len out_bytes)"

definition g722_wasm_dec_new :: "'c new_fn \<Rightarrow> int \<Rightarrow> int \<Rightarrow> 'c option" where
  "g722_wasm_dec_new g722_decoder_new rate options = g722_decoder_new rate options"

definition g722_wasm_dec_destroy :: "('c, 'w) destroy_fn \<Rightarrow> 'c option \<Rightarrow> 'w \<Rightarrow> 'w" where
  "g722_wasm_dec_destroy g722_decoder_destroy ctx world =
     (case ctx of
        Some c \<Rightarrow> g722_decoder_destroy c world
      | None \<Rightarrow> world)"

definition g722_wasm_decode ::
  "'c decode_fn \<Rightarrow> 'c option \<Rightarrow> byte list option \<Rightarrow> int \<Rightarrow> sample list option
     \<Rightarrow> int \<times> 'c option \<times> sample list option" where
  "g722_wasm_decode g722_decode ctx data len out_samples =
     (if ctx = None \<or> data = None \<or> out_samples = None
      then (- 1, ctx, out_samples)
      else g722_decode ctx data len out_samples)"


section \<open>The Node addon (src/native/g722_addon.cpp, built with G722_ENABLED)\<close>

text \<open>
  What JavaScript passes in \<open>info\<close>: a Node Buffer is a sequence of bytes; every other
  value fails \<open>IsBuffer()\<close>.
\<close>

datatype js_value = JsBuffer "byte list" | JsNumber int | JsString string | JsUndefined

text \<open>
  The exceptions the addon leaves pending. \<open>NapiFailure\<close> is the error of a failed N-API
  call itself.
\<close>

datatype js_error = JsTypeError string | JsError string | NapiFailure

text \<open>
  A method either returns its buffer, or returns \<open>env.Null()\<close> with an exception pending.
\<close>

datatype 'a napi_result = Returned 'a | Thrown js_error

text \<open>
  \<open>Napi::Buffer<int16_t>\<close> over a Node Buffer: \<open>Length()\<close> is the byte length divided by
  \<open>sizeof(int16_t)\<close>, and element \<open>i\<close> is made of bytes \<open>2i\<close> and \<open>2i+1\<close> in host order
  (little-endian here). A trailing odd byte belongs to no element.
\<close>

fun int16_view :: "byte list \<Rightarrow> sample list" where
  "int16_view (lo # hi # rest) = word_cat hi lo # int16_view rest"
| "int16_view _ = []"

text \<open>
  The cells of a \<open>Napi::Buffer\<close> after a codec call that was given its data pointer: the
  buffer object keeps the length it was created with.
\<close>

definition buffer_after :: "'a list \<Rightarrow> 'a list option \<Rightarrow> 'a list" where
  "buffer_after buf mem = write_buf buf (case mem of Some xs \<Rightarrow> xs | None \<Rightarrow> [])"

record ('e, 'd) G722Wrapper =
  encoder_state :: "'e option"
  decoder_state :: "'d option"

text \<open>
  \<open>G722Wrapper::Init\<close>: the names set on \<open>exports\<close>. The class is registered with its
  instance methods.
\<close>

datatype js_export = JsClass "string list" | JsBoolean bool

definition Init :: "(string \<rightharpoonup> js_export) \<Rightarrow> (string \<rightharpoonup> js_export)" where
  "Init exports =
     (exports(''G722'' \<mapsto> JsClass [''encode'', ''decode'']))(''g722Enabled'' \<mapsto> JsBoolean True)"

text \<open>
  The constructor: the object with both fields assigned, and the exception it leaves
  pending, if any.
\<close>

definition G722Wrapper_new ::
  "'e new_fn \<Rightarrow> 'd new_fn \<Rightarrow> js_value list \<Rightarrow> ('e, 'd) G722Wrapper \<times> js_error option" where
  "G722Wrapper_new g722_encoder_new g722_decoder_new info =
     (let this = \<lparr>encoder_state = g722_encoder_new 64000 0,
                   decoder_state = g722_decoder_new 64000 0\<rparr>
      in if encoder_state this = None \<or> decoder_state this = None
         then (this, Some (JsError ''Failed to initialize G.722 codec''))
         else (this, None))"

text \<open>
  \<open>info[0].IsBuffer()\<close> and the bytes \<open>info[0].As<Napi::Buffer<...>>()\<close> gives access
  to. The source reads \<open>info[0]\<close> only when \<open>info.Length()\<close> is 1.
\<close>

fun IsBuffer :: "js_value \<Rightarrow> bool" where
  "IsBuffer (JsBuffer raw) = True"
| "IsBuffer _ = False"

fun buffer_bytes :: "js_value \<Rightarrow> byte list" where
  "buffer_bytes (JsBuffer raw) = raw"
| "buffer_bytes _ = []"

text \<open>
  \<open>Data()\<close> of a \<open>Napi::Buffer\<close>: the pointer to its cells. A Buffer of length zero has
  no cells, and its pointer is \<open>NULL\<close>.
\<close>

definition Data :: "'a list \<Rightarrow> 'a list option" where
  "Data buf = (if buf = [] then None else Some buf)"

text \<open>
  \<open>Encode\<close>. \<open>pcm_buffer\<close> is the Node Buffer seen as \<open>int16_t\<close> elements; its data pointer
  is that of the bytes. \<open>int num_samples = pcm_buffer.Length()\<close> converts a \<open>size_t\<close> to a
  32-bit \<open>int\<close>; \<open>num_samples / 2\<close> is C's truncating division. \<open>Buffer::New\<close> takes a
  \<open>size_t\<close> length, so a negative \<open>output_len\<close> asks for more than any buffer can hold and
  the creation fails.
\<close>

definition Encode ::
  "'e encode_fn \<Rightarrow> ('e, 'd) G722Wrapper \<Rightarrow> js_value list
     \<Rightarrow> ('e, 'd) G722Wrapper \<times> byte list napi_result" where
  "Encode g722_encode this info =
     (if length info \<noteq> 1 \<or> \<not> IsBuffer (info ! 0)
      then (this, Thrown (JsTypeError ''PCM buffer expected''))
      else
        (let pcm_buffer = buffer_bytes (info ! 0);
             num_samples = sint (word_of_nat (length (int16_view pcm_buffer)) :: 32 word);
             output_len = num_samples sdiv 2
         in if output_len < 0 then (this, Thrown NapiFailure)
            else
              (let encoded_buffer = replicate (nat output_len) (0 :: byte)
               in case g722_encode (encoder_state this)
                         (map_option int16_view (Data pcm_buffer)) num_samples
                         (Data encoded_buffer) of
                    (result, ctx, mem) \<Rightarrow>
                      if result \<noteq> output_len
                      then (this\<lparr>encoder_state := ctx\<rparr>,
                            Thrown (JsError ''G.722 encoding failed''))
                      else (this\<lparr>encoder_state := ctx\<rparr>,
                            Returned (buffer_after encoded_buffer mem)))))"

text \<open>
  \<open>Decode\<close>. \<open>input_len * 2\<close> is a 32-bit multiplication, written here with its
  wrap-around.
\<close>

definition Decode ::
  "'d decode_fn \<Rightarrow> ('e, 'd) G722Wrapper \<Rightarrow> js_value list
     \<Rightarrow> ('e, 'd) G722Wrapper \<times> sample list napi_result" where
  "Decode g722_decode this info =
     (if length info \<noteq> 1 \<or> \<not> IsBuffer (info ! 0)
      then (this, Thrown (JsTypeError ''G.722 buffer expected''))
      else
        (let g722_buffer = buffer_bytes (info ! 0);
             input_len = sint (word_of_nat (length g722_buffer) :: 32 word);
             output_len = sint (word_of_int input_len * 2 :: 32 word)
         in if output_len < 0 then (this, Thrown NapiFailure)
            else
              (let pcm_buffer = replicate (nat output_len) (0 :: sample)
               in case g722_decode (decoder_state this) (Data g722_buffer) input_len
                         (Data pcm_buffer) of
                    (result, ctx, mem) \<Rightarrow>
                      if result \<noteq> output_len
                      then (this\<lparr>decoder_state := ctx\<rparr>,
                            Thrown (JsError ''G.722 decoding failed''))
                      else (this\<lparr>decoder_state := ctx\<rparr>,
                            Returned (buffer_after pcm_buffer mem)))))"

text \<open>A method call from JavaScript on an instance, and a sequence of them.\<close>

datatype method_call = CallEncode "js_value list" | CallDecode "js_value list"

fun invoke ::
  "'e encode_fn \<Rightarrow> 'd decode_fn \<Rightarrow> ('e, 'd) G722Wrapper \<Rightarrow> method_call \<Rightarrow> ('e, 'd) G722Wrapper" where
  "invoke g722_encode g722_decode this (CallEncode info) = fst (Encode g722_encode this info)"
| "invoke g722_encode g722_decode this (CallDecode info) = fst (Decode g722_decode this info)"

definition invoke_all ::
  "'e encode_fn \<Rightarrow> 'd decode_fn \<Rightarrow> ('e, 'd) G722Wrapper \<Rightarrow> method_call list
     \<Rightarrow> ('e, 'd) G722Wrapper" where
  "invoke_all g722_encode g722_decode this calls =
     foldl (invoke g722_encode g722_decode) this calls"



section \<open>The codec core\<close>

text \<open>
  Modelled from the spec: the per-stream state of section 3 (the context types
  \<open>G722_ENC_CTX\<close> and \<open>G722_DEC_CTX\<close> of \<open>g722_encoder.h\<close> and \<open>g722_decoder.h\<close> are
  missing from the sources). A band coder holds its predictor coefficients, a short
  history of reconstructed and quantized-difference values, and its scale factor.
\<close>

record BandState =
  pole_coeffs :: "int list"
  zero_coeffs :: "int list"
  recon_history :: "int list"
  diff_history :: "int list"
  scale_factor :: int

text \<open>
  Modelled from the spec: the delay line of the sub-band filter bank (section 3), missing
  from the sources with the context types.
\<close>

record FilterBankState =
  delay_line :: "int list"

text \<open>
  Modelled from the spec: the codec context of section 3, missing from the sources: the
  operating mode (bits per sample of the low band), the packing option, the two band
  coders and the filter bank. The encoder and the decoder variant hold the same fields.
\<close>

record CodecContext =
  mode :: nat
  options :: int
  low_band :: BandState
  high_band :: BandState
  filter_bank :: FilterBankState

text \<open>
  Modelled from the spec: the component contracts of sections 4.1 to 4.3, whose code is
  missing from the sources. The spec gives each component's signature and its effect on
  the state it owns, but no filter coefficients, quantizer tables or bit positions, so
  the components are taken as they come: the filter bank (\<open>analyze\<close>, \<open>synthesize\<close>), the
  low-band coder (configured with the bit width of the mode) and the high-band coder
  (\<open>encode_sample\<close>, \<open>decode_sample\<close>), and the bit packer (\<open>pack\<close>, \<open>unpack\<close>, with mode and
  packing option).
\<close>

record primitives =
  analyze :: "FilterBankState \<Rightarrow> sample \<Rightarrow> sample \<Rightarrow> (int \<times> int) \<times> FilterBankState"
  synthesize :: "FilterBankState \<Rightarrow> int \<Rightarrow> int \<Rightarrow> (sample \<times> sample) \<times> FilterBankState"
  low_encode_sample :: "nat \<Rightarrow> BandState \<Rightarrow> int \<Rightarrow> byte \<times> BandState"
  high_encode_sample :: "BandState \<Rightarrow> int \<Rightarrow> byte \<times> BandState"
  low_decode_sample :: "nat \<Rightarrow> BandState \<Rightarrow> byte \<Rightarrow> int \<times> BandState"
  high_decode_sample :: "BandState \<Rightarrow> byte \<Rightarrow> int \<times> BandState"
  pack :: "byte \<Rightarrow> byte \<Rightarrow> nat \<Rightarrow> int \<Rightarrow> byte"
  unpack :: "byte \<Rightarrow> nat \<Rightarrow> int \<Rightarrow> byte \<times> byte"

text \<open>
  Modelled from the spec: the encode data flow of section 2, missing from the sources
  with \<open>g722_encode\<close>. One pair of samples goes through the filter bank; the low and the
  high signal go to their band coders, each on its own state; the two codewords are
  packed into one byte.
\<close>

definition encode_pair ::
  "primitives \<Rightarrow> CodecContext \<Rightarrow> sample \<Rightarrow> sample \<Rightarrow> byte \<times> CodecContext" where
  "encode_pair P c s0 s1 =
     (case analyze P (filter_bank c) s0 s1 of
        ((low, high), fb) \<Rightarrow>
          (case low_encode_sample P (mode c) (low_band c) low of
             (low_code, lb) \<Rightarrow>
               (case high_encode_sample P (high_band c) high of
                  (high_code, hb) \<Rightarrow>
                    (pack P low_code high_code (mode c) (options c),
                     c\<lparr>low_band := lb, high_band := hb, filter_bank := fb\<rparr>))))"

text \<open>
  Modelled from the spec: the sample loop of \<open>g722_encode\<close> (section 4.4), missing from
  the sources. Samples are consumed in pairs and in order; an odd leftover sample is not
  consumed and is not kept for the next call (the length contract of section 8 leaves no
  other choice).
\<close>

fun encode_pairs :: "primitives \<Rightarrow> CodecContext \<Rightarrow> sample list \<Rightarrow> byte list \<times> CodecContext" where
  "encode_pairs P c (s0 # s1 # rest) =
     (case encode_pair P c s0 s1 of
        (b, c') \<Rightarrow> (case encode_pairs P c' rest of (bs, c'') \<Rightarrow> (b # bs, c'')))"
| "encode_pairs P c _ = ([], c)"

text \<open>
  Modelled from the spec: \<open>g722_encode\<close> (sections 4.4 and 6), missing from the sources;
  only its declaration is used by the shim and the addon. It returns -1 on a null handle
  or buffer; otherwise it encodes the first \<open>len\<close> samples of \<open>amp\<close>, stores the bytes at
  the start of \<open>out_bytes\<close> and returns their number.
\<close>

definition g722_encode :: "primitives \<Rightarrow> CodecContext encode_fn" where
  "g722_encode P ctx amp len out_bytes =
     (case (ctx, amp, out_bytes) of
        (Some c, Some samples, Some out) \<Rightarrow>
          (case encode_pairs P c (take (nat len) samples) of
             (bs, c') \<Rightarrow> (int (length bs), Some c', Some (write_buf out bs)))
      | _ \<Rightarrow> (- 1, ctx, out_bytes))"

text \<open>
  Modelled from the spec: the decode data flow of section 2 (the mirror of encode),
  missing from the sources with \<open>g722_decode\<close>. One byte is unpacked into the two
  codewords; each goes to its band coder; the filter bank merges the two reconstructed
  signals into one pair of samples.
\<close>

definition decode_byte ::
  "primitives \<Rightarrow> CodecContext \<Rightarrow> byte \<Rightarrow> sample list \<times> CodecContext" where
  "decode_byte P c b =
     (case unpack P b (mode c) (options c) of
        (low_code, high_code) \<Rightarrow>
          (case low_decode_sample P (mode c) (low_band c) low_code of
             (low, lb) \<Rightarrow>
               (case high_decode_sample P (high_band c) high_code of
                  (high, hb) \<Rightarrow>
                    (case synthesize P (filter_bank c) low high of
                       ((s0, s1), fb) \<Rightarrow>
                         ([s0, s1],
                          c\<lparr>low_band := lb, high_band := hb, filter_bank := fb\<rparr>)))))"

text \<open>
  Modelled from the spec: the byte loop of \<open>g722_decode\<close> (section 4.4), missing from the
  sources.
\<close>

fun decode_bytes :: "primitives \<Rightarrow> CodecContext \<Rightarrow> byte list \<Rightarrow> sample list \<times> CodecContext" where
  "decode_bytes P c [] = ([], c)"
| "decode_bytes P c (b # rest) =
     (case decode_byte P c b of
        (ss, c') \<Rightarrow> (case decode_bytes P c' rest of (ss', c'') \<Rightarrow> (ss @ ss', c'')))"

text \<open>
  Modelled from the spec: \<open>g722_decode\<close> (sections 4.4 and 6), missing from the sources;
  only its declaration is used by the shim and the addon. It returns -1 on a null handle
  or buffer; otherwise it decodes the first \<open>len\<close> bytes of \<open>data\<close>, stores the samples at
  the start of \<open>out_samples\<close> and returns their number.
\<close>

definition g722_decode :: "primitives \<Rightarrow> CodecContext decode_fn" where
  "g722_decode P ctx data len out_samples =
     (case (ctx, data, out_samples) of
        (Some c, Some bytes, Some out) \<Rightarrow>
          (case decode_bytes P c (take (nat len) bytes) of
             (ss, c') \<Rightarrow> (int (length ss), Some c', Some (write_buf out ss)))
      | _ \<Rightarrow> (- 1, ctx, out_samples))"

text \<open>
  Encoding a stream chunk by chunk through the shim: one \<open>g722_wasm_encode\<close> call per
  chunk against the same context, each with an output buffer of half the chunk's length;
  the bytes of the calls are collected in order.
\<close>

fun encode_chunks ::
  "primitives \<Rightarrow> CodecContext \<Rightarrow> sample list list \<Rightarrow> byte list \<times> CodecContext" where
  "encode_chunks P c [] = ([], c)"
| "encode_chunks P c (chunk # chunks) =
     (case g722_wasm_encode (g722_encode P) (Some c) (Some chunk) (int (length chunk))
             (Some (replicate (length chunk div 2) 0)) of
        (n, Some c', Some out) \<Rightarrow>
          (case encode_chunks P c' chunks of (bs, c'') \<Rightarrow> (take (nat n) out @ bs, c''))
      | _ \<Rightarrow> ([], c))"


section \<open>Concrete instances for evaluation\<close>

text \<open>
  A stand-in for the codec functions, used to run the shim and the addon on concrete
  arguments. Its context is the pair (rate, options) it was created with. Like a loop
  \<open>for (j = 0; j < len; ...)\<close> it produces nothing for a \<open>len\<close> that is not positive:
  encode reports one byte for every two of \<open>len\<close> samples and decode two samples for
  every one of \<open>len\<close> bytes. Both fill the output, when there is one, with ones, and
  neither checks a pointer.
\<close>

definition stub_new :: "(int \<times> int) new_fn" where
  "stub_new rate opts = Some (rate, opts)"

definition stub_encode :: "(int \<times> int) encode_fn" where
  "stub_encode ctx amp len out_bytes =
     (int (nat len div 2), ctx,
      map_option (\<lambda>out. write_buf out (replicate (nat len div 2) 1)) out_bytes)"

definition stub_decode :: "(int \<times> int) decode_fn" where
  "stub_decode ctx data len out_samples =
     (int (2 * nat len), ctx,
      map_option (\<lambda>out. write_buf out (replicate (2 * nat len) 1)) out_samples)"

definition stub_destroy :: "(int \<times> int, (int \<times> int) set) destroy_fn" where
  "stub_destroy c live = live - {c}"

text \<open>
  A small instance of the components, used to run the core on concrete samples: a
  two-tap sum and difference filter, band coders that quantize the difference to the last
  input, and a packer that puts the high codeword above a six-bit low field.
\<close>

definition example_primitives :: primitives where
  "example_primitives =
     \<lparr>analyze = (\<lambda>fb s0 s1.
         (((sint s0 + sint s1) div 2, (sint s0 - sint s1) div 2),
          fb\<lparr>delay_line := drop 2 (delay_line fb) @ [sint s0, sint s1]\<rparr>)),
      synthesize = (\<lambda>fb low high.
         ((word_of_int (low + high), word_of_int (low - high)),
          fb\<lparr>delay_line := drop 2 (delay_line fb) @ [low, high]\<rparr>)),
      low_encode_sample = (\<lambda>bits st x.
         (word_of_int ((x - scale_factor st) div 64) AND mask bits,
          st\<lparr>recon_history := [x], scale_factor := x\<rparr>)),
      high_encode_sample = (\<lambda>st x.
         (word_of_int ((x - scale_factor st) div 4096) AND mask 2,
          st\<lparr>recon_history := [x], scale_factor := x\<rparr>)),
      low_decode_sample = (\<lambda>bits st code.
         (scale_factor st + 64 * sint code,
          st\<lparr>recon_history := [scale_factor st + 64 * sint code],
             scale_factor := scale_factor st + 64 * sint code\<rparr>)),
      high_decode_sample = (\<lambda>st code.
         (scale_factor st + 4096 * sint code,
          st\<lparr>recon_history := [scale_factor st + 4096 * sint code],
             scale_factor := scale_factor st + 4096 * sint code\<rparr>)),
      pack = (\<lambda>low_code high_code bits opts. push_bit 6 high_code OR (low_code AND mask 6)),
      unpack = (\<lambda>b bits opts. (b AND mask 6, drop_bit 6 b AND mask 2))\<rparr>"

definition example_context :: CodecContext where
  "example_context =
     \<lparr>mode = 6, options = 0,
      low_band = \<lparr>pole_coeffs = [0, 0], zero_coeffs = [0, 0, 0, 0, 0, 0],
                  recon_history = [], diff_history = [], scale_factor = 0\<rparr>,
      high_band = \<lparr>pole_coeffs = [0, 0], zero_coeffs = [0, 0],
                   recon_history = [], diff_history = [], scale_factor = 0\<rparr>,
      filter_bank = \<lparr>delay_line = replicate 24 0\<rparr>\<rparr>"


section \<open>Buffer facts\<close>

lemma write_buf_length [simp]: "length (write_buf buf xs) = length buf"
  by (simp add: write_buf_def)

lemma write_buf_Nil [simp]: "write_buf buf [] = buf"
  by (simp add: write_buf_def)

lemma write_buf_exact: "length xs = length buf \<Longrightarrow> write_buf buf xs = xs"
  by (simp add: write_buf_def)

lemma buffer_after_length [simp]: "length (buffer_after buf mem) = length buf"
  by (simp add: buffer_after_def)

lemma int16_view_length [simp]: "length (int16_view raw) = length raw div 2"
  by (induction raw rule: int16_view.induct) simp_all


section \<open>Null arguments at the shim\<close>

text \<open>
  Claim C2. When the context pointer, the input pointer or the output pointer is null,
  \<open>g722_wasm_encode\<close> and \<open>g722_wasm_decode\<close> return -1 and leave the context and the output
  buffer as they were. This holds whatever the codec function is: the codec is not called.
\<close>

theorem shim_null_argument:
  "(ctx = None \<or> amp = None \<or> out_bytes = None
      \<longrightarrow> g722_wasm_encode enc ctx amp len out_bytes = (- 1, ctx, out_bytes))
   \<and> (dctx = None \<or> data = None \<or> out_samples = None
      \<longrightarrow> g722_wasm_decode dec dctx data dlen out_samples = (- 1, dctx, out_samples))"
  by (simp add: g722_wasm_encode_def g722_wasm_decode_def)

text \<open>
  Witness for C2: a null context on encode and a null input buffer on decode.
\<close>

theorem shim_null_argument_witness:
  "g722_wasm_encode stub_encode None (Some [0, 1000]) 2 (Some [7]) = (- 1, None, Some [7])
   \<and> g722_wasm_decode stub_decode (Some (64000, 0)) None 1 (Some [7, 7])
       = (- 1, Some (64000, 0), Some [7, 7])"
proof -
  have e: "(None :: (int \<times> int) option) = None \<or> Some [0, 1000 :: sample] = None \<or> Some [7 :: byte] = None"
    by simp
  have d: "Some (64000 :: int, 0 :: int) = None \<or> (None :: byte list option) = None
             \<or> Some [7, 7 :: sample] = None"
    by simp
  note t = shim_null_argument [of None "Some [0, 1000]" "Some [7]" stub_encode 2
      "Some (64000, 0)" None "Some [7, 7]" stub_decode 1]
  from t e have "g722_wasm_encode stub_encode None (Some [0, 1000]) 2 (Some [7]) = (- 1, None, Some [7])"
    by (rule conjunct1 [THEN mp])
  moreover from t d have "g722_wasm_decode stub_decode (Some (64000, 0)) None 1 (Some [7, 7])
       = (- 1, Some (64000, 0), Some [7, 7])"
    by (rule conjunct2 [THEN mp])
  ultimately show ?thesis by (rule conjI)
qed

text \<open>
  Claim C8. Destroying a null handle is a no-op for the encoder and for the decoder: the
  shim returns with everything the codec's destroy function could act on unchanged,
  whatever that function is, so nothing is released.
\<close>

theorem shim_destroy_null:
  "g722_wasm_enc_destroy enc_destroy None world = world
   \<and> g722_wasm_dec_destroy dec_destroy None world' = world'"
  by (simp add: g722_wasm_enc_destroy_def g722_wasm_dec_destroy_def)

text \<open>
  An instance of C8: with a destroy function that removes the context from the set of
  live contexts, a null handle leaves the set as it was.
\<close>

theorem shim_destroy_null_witness:
  "g722_wasm_enc_destroy stub_destroy None {(64000, 0)} = {(64000, 0)}
   \<and> g722_wasm_dec_destroy stub_destroy None {(64000, 0)} = {(64000, 0)}"
  by (rule shim_destroy_null)


section \<open>The addon's contexts\<close>

lemma Encode_encoder_state:
  assumes "\<And>c amp len out. Qe c \<Longrightarrow> Qe (fst (snd (enc c amp len out)))"
    and "Qe (encoder_state this)"
  shows "Qe (encoder_state (fst (Encode enc this info)))"
proof -
  let ?pcm = "buffer_bytes (info ! 0)"
  let ?num = "sint (word_of_nat (length (int16_view ?pcm)) :: 32 word)"
  let ?call = "enc (encoder_state this) (map_option int16_view (Data ?pcm)) ?num
      (Data (replicate (nat (?num sdiv 2)) 0))"
  obtain result ctx mem where r: "?call = (result, ctx, mem)" by (cases ?call)
  from assms have "Qe (fst (snd ?call))" by simp
  with r have "Qe ctx" by simp
  with assms(2) r show ?thesis by (simp add: Encode_def Let_def del: int16_view_length)
qed

lemma Encode_decoder_state: "decoder_state (fst (Encode enc this info)) = decoder_state this"
  by (simp add: Encode_def Let_def split: prod.splits del: int16_view_length)

lemma Decode_decoder_state:
  assumes "\<And>c data len out. Qd c \<Longrightarrow> Qd (fst (snd (dec c data len out)))"
    and "Qd (decoder_state this)"
  shows "Qd (decoder_state (fst (Decode dec this info)))"
proof -
  let ?buf = "buffer_bytes (info ! 0)"
  let ?len = "sint (word_of_nat (length ?buf) :: 32 word)"
  let ?out = "sint (word_of_int ?len * 2 :: 32 word)"
  let ?call = "dec (decoder_state this) (Data ?buf) ?len (Data (replicate (nat ?out) 0))"
  obtain result ctx mem where r: "?call = (result, ctx, mem)" by (cases ?call)
  from assms have "Qd (fst (snd ?call))" by simp
  with r have "Qd ctx" by simp
  with assms(2) r show ?thesis by (simp add: Decode_def Let_def)
qed

lemma Decode_encoder_state: "encoder_state (fst (Decode dec this info)) = encoder_state this"
  by (simp add: Decode_def Let_def split: prod.splits)

lemma invoke_all_invariant:
  assumes "\<And>c amp len out. Qe c \<Longrightarrow> Qe (fst (snd (enc c amp len out)))"
    and "\<And>c data len out. Qd c \<Longrightarrow> Qd (fst (snd (dec c data len out)))"
  shows "Qe (encoder_state this) \<Longrightarrow> Qd (decoder_state this)
     \<Longrightarrow> Qe (encoder_state (invoke_all enc dec this calls))
         \<and> Qd (decoder_state (invoke_all enc dec this calls))"
proof (induction calls arbitrary: this)
  case Nil
  then show ?case by (simp add: invoke_all_def)
next
  case (Cons call calls)
  let ?next = "invoke enc dec this call"
  have "Qe (encoder_state ?next) \<and> Qd (decoder_state ?next)"
  proof (cases call)
    case (CallEncode info)
    with Cons.prems Encode_encoder_state [of Qe enc this info, OF assms(1)]
    show ?thesis by (simp add: Encode_decoder_state)
  next
    case (CallDecode info)
    with Cons.prems Decode_decoder_state [of Qd dec this info, OF assms(2)]
    show ?thesis by (simp add: Decode_encoder_state)
  qed
  then have "Qe (encoder_state (invoke_all enc dec ?next calls))
      \<and> Qd (decoder_state (invoke_all enc dec ?next calls))"
    using Cons.IH [of ?next] by simp
  then show ?case by (simp add: invoke_all_def)
qed

text \<open>
  Claim C9. The constructor creates the encoder context with \<open>g722_encoder_new(64000, 0)\<close>
  and the decoder context with \<open>g722_decoder_new(64000, 0)\<close> whatever arguments JavaScript
  passes, and the class exposes the two methods \<open>encode\<close> and \<open>decode\<close> only. The methods
  hand the codec the contexts the instance holds and store back what the codec leaves:
  every property \<open>Qe\<close> of an encoder context (and \<open>Qd\<close> of a decoder context) that the
  codec's own encode (decode) keeps true, such as its operating mode and packing option,
  and that holds of the context created with (64000, 0), holds of the instance's context
  after any sequence of method calls.
\<close>

theorem addon_fixed_rate:
  assumes "\<And>c amp len out. Qe c \<Longrightarrow> Qe (fst (snd (enc c amp len out)))"
    and "\<And>c data len out. Qd c \<Longrightarrow> Qd (fst (snd (dec c data len out)))"
    and "Qe (new_enc 64000 0)" and "Qd (new_dec 64000 0)"
  shows "fst (G722Wrapper_new new_enc new_dec info)
           = \<lparr>encoder_state = new_enc 64000 0, decoder_state = new_dec 64000 0\<rparr>
       \<and> Init exports ''G722'' = Some (JsClass [''encode'', ''decode''])
       \<and> Qe (encoder_state (invoke_all enc dec (fst (G722Wrapper_new new_enc new_dec info)) calls))
       \<and> Qd (decoder_state (invoke_all enc dec (fst (G722Wrapper_new new_enc new_dec info)) calls))"
proof -
  have new: "fst (G722Wrapper_new new_enc new_dec info)
           = \<lparr>encoder_state = new_enc 64000 0, decoder_state = new_dec 64000 0\<rparr>"
    by (simp add: G722Wrapper_new_def Let_def)
  have init: "Init exports ''G722'' = Some (JsClass [''encode'', ''decode''])"
    by (simp add: Init_def)
  from assms(3,4) new
  have "Qe (encoder_state (fst (G722Wrapper_new new_enc new_dec info)))"
    and "Qd (decoder_state (fst (G722Wrapper_new new_enc new_dec info)))"
    by simp_all
  from invoke_all_invariant [of Qe enc Qd dec, OF assms(1) assms(2) this]
  show ?thesis using new init by simp
qed

text \<open>
  Witness for C9: the stand-in codec, whose context records the rate and options it was
  created with; the constructor is given arguments asking for another rate.
\<close>

theorem addon_fixed_rate_witness:
  "fst (G722Wrapper_new stub_new stub_new [JsNumber 48000, JsNumber 2])
     = \<lparr>encoder_state = Some (64000, 0), decoder_state = Some (64000, 0)\<rparr>
   \<and> Init Map.empty ''G722'' = Some (JsClass [''encode'', ''decode''])
   \<and> encoder_state (invoke_all stub_encode stub_decode
        (fst (G722Wrapper_new stub_new stub_new [JsNumber 48000, JsNumber 2]))
        [CallEncode [JsBuffer [0, 0, 232, 3]], CallDecode [JsBuffer [199]]]) = Some (64000, 0)
   \<and> decoder_state (invoke_all stub_encode stub_decode
        (fst (G722Wrapper_new stub_new stub_new [JsNumber 48000, JsNumber 2]))
        [CallEncode [JsBuffer [0, 0, 232, 3]], CallDecode [JsBuffer [199]]]) = Some (64000, 0)"
proof -
  have e: "\<And>c amp len out. c = Some (64000 :: int, 0 :: int)
      \<Longrightarrow> fst (snd (stub_encode c amp len out)) = Some (64000, 0)"
    by (simp add: stub_encode_def)
  have d: "\<And>c data len out. c = Some (64000 :: int, 0 :: int)
      \<Longrightarrow> fst (snd (stub_decode c data len out)) = Some (64000, 0)"
    by (simp add: stub_decode_def)
  have n: "stub_new 64000 0 = Some (64000, 0)"
    by (simp add: stub_new_def)
  note t = addon_fixed_rate [of "\<lambda>c. c = Some (64000, 0)" stub_encode
      "\<lambda>c. c = Some (64000, 0)" stub_decode stub_new stub_new, OF e d n n,
      of "[JsNumber 48000, JsNumber 2]" Map.empty
         "[CallEncode [JsBuffer [0, 0, 232, 3]], CallDecode [JsBuffer [199]]]"]
  from t show ?thesis unfolding n .
qed


section \<open>The addon's length check\<close>

lemma sint32_of_nat: "n < 2 ^ 31 \<Longrightarrow> sint (word_of_nat n :: 32 word) = int n"
  by (simp add: signed_of_nat signed_take_bit_int_eq_self)

lemma sint32_of_nat_high:
  assumes "2 ^ 31 \<le> n" and "n < 2 ^ 32"
  shows "sint (word_of_nat n :: 32 word) = int n - 2 ^ 32"
proof -
  have "(int n + 2147483648) mod 4294967296 = int n - 2147483648"
    by (rule int_mod_pos_eq [where q = 1]) (use assms in simp_all)
  then show ?thesis
    by (simp add: signed_of_nat signed_take_bit_eq_take_bit_shift take_bit_eq_mod)
qed

lemma sdiv_2_nat: "int n sdiv 2 = int (n div 2)"
  by (simp add: signed_divide_int_def sgn_if zdiv_int)

lemma sdiv_2_negative: "k \<le> - 2 \<Longrightarrow> k sdiv 2 < (0 :: int)"
  by (simp add: signed_divide_int_def sgn_if)

lemma sint32_double: "m < 2 ^ 30 \<Longrightarrow> sint (word_of_nat m * 2 :: 32 word) = int (2 * m)"
proof -
  assume m: "m < 2 ^ 30"
  then have "sint (word_of_nat m :: 32 word) = int m" by (simp add: sint32_of_nat)
  with m show ?thesis by (simp add: sint_word_mult signed_take_bit_int_eq_self)
qed

lemma sint32_double_high:
  assumes "2 ^ 30 \<le> m" and "m < 2 ^ 31"
  shows "sint (word_of_nat m * 2 :: 32 word) = int (2 * m) - 2 ^ 32"
proof -
  have "word_of_nat m * 2 = (word_of_nat (2 * m) :: 32 word)" by simp
  moreover from assms have "2 ^ 31 \<le> 2 * m" and "2 * m < 2 ^ 32" by simp_all
  ultimately show ?thesis by (simp only: sint32_of_nat_high)
qed

text \<open>
  Where the addon keeps the length contract: up to \<open>2^32 - 2\<close> samples, a buffer that
  \<open>Encode\<close> returns has exactly \<open>n div 2\<close> bytes, whatever the codec function does (from
  \<open>2^31\<close> samples on, \<open>output_len\<close> is negative and the call throws).
\<close>

lemma Encode_returned_length:
  assumes n: "length (int16_view raw) < 2 ^ 32 - 1"
    and r: "snd (Encode enc this [JsBuffer raw]) = Returned b"
  shows "length b = length (int16_view raw) div 2"
proof (cases "length (int16_view raw) < 2 ^ 31")
  case True
  let ?n = "length (int16_view raw)"
  let ?call = "enc (encoder_state this) (map_option int16_view (Data raw)) (int ?n)
      (Data (replicate (?n div 2) 0))"
  obtain result ctx mem where c: "?call = (result, ctx, mem)" by (cases ?call)
  from True have s: "sint (word_of_nat ?n :: 32 word) = int ?n" by (rule sint32_of_nat)
  from r c show ?thesis
    by (auto simp add: Encode_def Let_def s sdiv_2_nat simp del: int16_view_length
        split: if_splits)
next
  case False
  let ?n = "length (int16_view raw)"
  from False n have "sint (word_of_nat ?n :: 32 word) = int ?n - 2 ^ 32"
    by (intro sint32_of_nat_high) simp_all
  moreover from n have "int ?n - 2 ^ 32 \<le> - 2" by simp
  ultimately have "sint (word_of_nat ?n :: 32 word) sdiv 2 < 0"
    by (simp only: sdiv_2_negative)
  with r show ?thesis
    by (simp add: Encode_def Let_def del: int16_view_length)
qed

text \<open>
  The same for \<open>Decode\<close>, up to \<open>2^31 - 1\<close> bytes (from \<open>2^30\<close> bytes on, \<open>output_len\<close> is
  negative and the call throws).
\<close>

lemma Decode_returned_length:
  assumes m: "length data < 2 ^ 31"
    and r: "snd (Decode dec this [JsBuffer data]) = Returned s"
  shows "length s = 2 * length data"
proof (cases "length data < 2 ^ 30")
  case True
  let ?m = "length data"
  let ?call = "dec (decoder_state this) (Data data) (int ?m) (Data (replicate (2 * ?m) 0))"
  obtain result ctx mem where c: "?call = (result, ctx, mem)" by (cases ?call)
  from m have a: "sint (word_of_nat ?m :: 32 word) = int ?m" by (rule sint32_of_nat)
  from True have b: "sint (word_of_nat ?m * 2 :: 32 word) = int (2 * ?m)" by (rule sint32_double)
  have n: "nat (int (2 * ?m)) = 2 * ?m" by (rule nat_int)
  from r c show ?thesis
    unfolding Decode_def Let_def
    by (auto simp add: a b n simp del: of_nat_mult split: if_splits)
next
  case False
  let ?m = "length data"
  from m have a: "sint (word_of_nat ?m :: 32 word) = int ?m" by (rule sint32_of_nat)
  from False m have b: "sint (word_of_nat ?m * 2 :: 32 word) = int (2 * ?m) - 2 ^ 32"
    by (intro sint32_double_high) simp_all
  from m have "int (2 * ?m) - 2 ^ 32 < 0" by simp
  with r show ?thesis
    unfolding Decode_def Let_def by (simp add: a b del: of_nat_mult)
qed

text \<open>
  Claim C10. \<open>Encode\<close> is to return a byte buffer of exactly \<open>n div 2\<close> bytes for \<open>n\<close>
  input samples or to throw, and its check \<open>result != output_len\<close> is there for that. The
  code misses it on a Buffer of \<open>2^33\<close> bytes, which holds \<open>2^32\<close> samples:
  \<open>int num_samples = pcm_buffer.Length()\<close> leaves \<open>num_samples = 0\<close>, so \<open>output_len\<close> is 0,
  the codec is asked for 0 samples and reports 0 bytes, the check passes, and \<open>Encode\<close>
  returns an empty buffer where the claim asks for \<open>2^31\<close> bytes or an exception. The
  codec here is the stand-in, which reports what a loop over \<open>len\<close> samples produces.
\<close>

theorem addon_length_truncated:
  "length (int16_view (replicate 8589934592 0)) div 2 = 2147483648
   \<and> snd (Encode stub_encode
            \<lparr>encoder_state = Some (64000, 0), decoder_state = Some (64000 :: int, 0 :: int)\<rparr>
            [JsBuffer (replicate 8589934592 0)]) = Returned []"
  by (simp add: Encode_def Data_def stub_encode_def buffer_after_def write_buf_def)

text \<open>
  The instance of C10 read off the theorem: the call returns a buffer, and the buffer is
  empty.
\<close>

theorem addon_length_truncated_witness:
  "snd (Encode stub_encode
          \<lparr>encoder_state = Some (64000, 0), decoder_state = Some (64000 :: int, 0 :: int)\<rparr>
          [JsBuffer (replicate 8589934592 0)]) = Returned []"
  using addon_length_truncated by (rule conjunct2)

text \<open>
  The same defect one sample earlier and in \<open>Decode\<close>: \<open>2^32 - 1\<close> samples leave
  \<open>num_samples = -1\<close> and \<open>output_len = 0\<close>; \<open>2^31\<close> bytes leave \<open>input_len = -2^31\<close>, whose
  double wraps to \<open>output_len = 0\<close>. In both the stand-in codec produces nothing and an
  empty buffer is returned.
\<close>

lemma Encode_truncated_odd:
  "snd (Encode stub_encode
          \<lparr>encoder_state = Some (64000, 0), decoder_state = Some (64000 :: int, 0 :: int)\<rparr>
          [JsBuffer (replicate 8589934590 0)]) = Returned []"
  by (simp add: Encode_def Data_def stub_encode_def buffer_after_def write_buf_def
      signed_divide_int_def)

lemma Decode_truncated:
  "snd (Decode stub_decode
          \<lparr>encoder_state = Some (64000 :: int, 0 :: int), decoder_state = Some (64000, 0)\<rparr>
          [JsBuffer (replicate 2147483648 0)]) = Returned []"
  by (simp add: Decode_def Data_def stub_decode_def buffer_after_def write_buf_def)

text \<open>
  With a codec that checks its pointers, an empty input Buffer makes \<open>Encode\<close> throw:
  both data pointers are \<open>NULL\<close>, the codec answers -1, and -1 is not \<open>output_len\<close>.
\<close>

lemma Encode_empty_null_checked:
  "snd (Encode (g722_wasm_encode stub_encode)
          \<lparr>encoder_state = Some (64000, 0), decoder_state = Some (64000 :: int, 0 :: int)\<rparr>
          [JsBuffer []]) = Thrown (JsError ''G.722 encoding failed'')"
  by (simp add: Encode_def Data_def g722_wasm_encode_def)


section \<open>The length contract of the core\<close>

lemma encode_pairs_length: "length (fst (encode_pairs P c xs)) = length xs div 2"
proof (induction P c xs rule: encode_pairs.induct)
  case (1 P c s0 s1 rest)
  obtain b c' where p: "encode_pair P c s0 s1 = (b, c')" by (cases "encode_pair P c s0 s1")
  obtain bs c'' where r: "encode_pairs P c' rest = (bs, c'')" by (cases "encode_pairs P c' rest")
  from "1.IH" [of b c'] p r have "length bs = length rest div 2" by simp
  with p r show ?case by simp
qed simp_all

lemma decode_byte_length: "length (fst (decode_byte P c b)) = 2"
  by (simp add: decode_byte_def split: prod.splits)

lemma decode_bytes_length: "length (fst (decode_bytes P c bs)) = 2 * length bs"
proof (induction bs arbitrary: c)
  case Nil
  show ?case by simp
next
  case (Cons b bs)
  obtain ss c' where b: "decode_byte P c b = (ss, c')" by (cases "decode_byte P c b")
  obtain ss' c'' where r: "decode_bytes P c' bs = (ss', c'')" by (cases "decode_bytes P c' bs")
  from decode_byte_length [of P c b] b have "length ss = 2" by simp
  moreover from Cons.IH [of c'] r have "length ss' = 2 * length bs" by simp
  ultimately show ?case using b r by simp
qed

text \<open>
  Claim C1. For every encoder context and every sample count \<open>n\<close> (with a buffer that
  holds \<open>n\<close> samples), \<open>g722_encode\<close> returns \<open>n div 2\<close> and produces that many bytes; for
  every decoder context and every byte count \<open>m\<close> (with a buffer that holds \<open>m\<close> bytes),
  \<open>g722_decode\<close> returns \<open>2 * m\<close> and produces that many samples.
\<close>

theorem length_contract:
  assumes "n \<le> length amp" and "m \<le> length data"
  shows "fst (g722_encode P (Some c) (Some amp) (int n) (Some out_bytes)) = int (n div 2)
     \<and> length (fst (encode_pairs P c (take n amp))) = n div 2
     \<and> fst (g722_decode P (Some d) (Some data) (int m) (Some out_samples)) = int (2 * m)
     \<and> length (fst (decode_bytes P d (take m data))) = 2 * m"
proof -
  have e: "length (fst (encode_pairs P c (take n amp))) = n div 2"
    using assms(1) by (simp add: encode_pairs_length)
  have d: "length (fst (decode_bytes P d (take m data))) = 2 * m"
    using assms(2) by (simp add: decode_bytes_length)
  from e have "fst (g722_encode P (Some c) (Some amp) (int n) (Some out_bytes)) = int (n div 2)"
    by (cases "encode_pairs P c (take n amp)") (simp add: g722_encode_def)
  moreover from d have "fst (g722_decode P (Some d) (Some data) (int m) (Some out_samples)) = int (2 * m)"
    by (cases "decode_bytes P d (take m data)") (simp add: g722_decode_def)
  ultimately show ?thesis using e d by simp
qed

text \<open>
  Witness for C1: four samples encoded and two bytes decoded with the example components.
\<close>

theorem length_contract_witness:
  "(4 :: nat) \<le> length [0, 1000, - 1000, 500 :: sample] \<and> (2 :: nat) \<le> length [199, 244 :: byte]
   \<and> fst (g722_encode example_primitives (Some example_context)
            (Some [0, 1000, - 1000, 500]) (int 4) (Some [0, 0])) = int (4 div 2)
   \<and> fst (g722_decode example_primitives (Some example_context)
            (Some [199, 244]) (int 2) (Some [0, 0, 0, 0])) = int (2 * 2)"
proof -
  have a: "(4 :: nat) \<le> length [0, 1000, - 1000, 500 :: sample]" by simp
  have b: "(2 :: nat) \<le> length [199, 244 :: byte]" by simp
  note t = length_contract [OF a b, of example_primitives example_context "[0, 0]"
      example_context "[0, 0, 0, 0]"]
  from a b t show ?thesis by blast
qed

text \<open>
  Claim C7. With non-null pointers and a count of 0, encode and decode through the shim
  return 0 and leave the whole context (both band states and the filter bank state) and
  the output buffer unchanged.
\<close>

theorem zero_count:
  "g722_wasm_encode (g722_encode P) (Some c) (Some amp) 0 (Some out_bytes)
     = (0, Some c, Some out_bytes)
   \<and> g722_wasm_decode (g722_decode P) (Some d) (Some data) 0 (Some out_samples)
     = (0, Some d, Some out_samples)"
  by (simp add: g722_wasm_encode_def g722_wasm_decode_def g722_encode_def g722_decode_def)


section \<open>Encoding in chunks\<close>

lemma encode_pairs_append:
  "even (length xs) \<Longrightarrow>
     encode_pairs P c (xs @ ys) =
       (case encode_pairs P c xs of
          (bs, c') \<Rightarrow> (case encode_pairs P c' ys of (bs', c'') \<Rightarrow> (bs @ bs', c'')))"
proof (induction P c xs rule: encode_pairs.induct)
  case (1 P c s0 s1 rest)
  obtain b c1 where p: "encode_pair P c s0 s1 = (b, c1)" by (cases "encode_pair P c s0 s1")
  obtain bs c2 where r: "encode_pairs P c1 rest = (bs, c2)" by (cases "encode_pairs P c1 rest")
  obtain bs' c3 where t: "encode_pairs P c2 ys = (bs', c3)" by (cases "encode_pairs P c2 ys")
  from "1.prems" have "even (length rest)" by simp
  with "1.IH" [of b c1] p r t have "encode_pairs P c1 (rest @ ys) = (bs @ bs', c3)" by simp
  with p r t show ?case by simp
qed (simp_all split: prod.splits)

lemma shim_encode_chunk:
  "g722_wasm_encode (g722_encode P) (Some c) (Some chunk) (int (length chunk))
       (Some (replicate (length chunk div 2) 0))
     = (int (length (fst (encode_pairs P c chunk))), Some (snd (encode_pairs P c chunk)),
        Some (fst (encode_pairs P c chunk)))"
proof -
  obtain bs c' where r: "encode_pairs P c chunk = (bs, c')" by (cases "encode_pairs P c chunk")
  from encode_pairs_length [of P c chunk] r have "length bs = length chunk div 2" by simp
  then have "write_buf (replicate (length chunk div 2) 0) bs = bs"
    by (simp add: write_buf_exact)
  with r show ?thesis by (simp add: g722_wasm_encode_def g722_encode_def)
qed

lemma encode_chunks_Cons:
  "encode_chunks P c (chunk # chunks) =
     (case encode_pairs P c chunk of
        (bs, c') \<Rightarrow> (case encode_chunks P c' chunks of (bs', c'') \<Rightarrow> (bs @ bs', c'')))"
  by (cases "encode_pairs P c chunk") (simp add: shim_encode_chunk)

lemma encode_chunks_concat:
  "\<forall>chunk \<in> set chunks. even (length chunk)
     \<Longrightarrow> encode_chunks P c chunks = encode_pairs P c (concat chunks)"
proof (induction chunks arbitrary: c)
  case Nil
  show ?case by simp
next
  case (Cons chunk chunks)
  obtain bs c' where r: "encode_pairs P c chunk = (bs, c')" by (cases "encode_pairs P c chunk")
  from Cons.prems have ev: "even (length chunk)" and rest: "\<forall>ch \<in> set chunks. even (length ch)"
    by simp_all
  from Cons.IH [OF rest, of c'] have "encode_chunks P c' chunks = encode_pairs P c' (concat chunks)" .
  with r show ?case
    by (simp add: encode_chunks_Cons encode_pairs_append [OF ev] del: encode_chunks.simps)
qed

text \<open>
  Claim C3. Split a sample sequence into consecutive chunks of even length in any way;
  encoding the chunks in order through the shim against one context gives the same bytes
  (and leaves the same context) as encoding the whole sequence in one call against a
  context in the same initial state. The right-hand side is the run with the single
  chunk \<open>concat chunks\<close>, that is one \<open>g722_wasm_encode\<close> call on the whole sequence.
\<close>

theorem chunked_encoding:
  assumes "\<forall>chunk \<in> set chunks. even (length chunk)"
  shows "encode_chunks P c chunks = encode_chunks P c [concat chunks]"
proof -
  have "encode_chunks P c [concat chunks] = encode_pairs P c (concat chunks)"
    by (cases "encode_pairs P c (concat chunks)")
       (simp add: encode_chunks_Cons del: encode_chunks.simps(2))
  with encode_chunks_concat [OF assms, of P c] show ?thesis by simp
qed

text \<open>
  Witness for C3: the samples 0, 1000, -1000, 500 in two chunks of two, with the example
  components.
\<close>

theorem chunked_encoding_witness:
  "even (length [0, 1000 :: sample]) \<and> even (length [- 1000, 500 :: sample])
   \<and> encode_chunks example_primitives example_context [[0, 1000], [- 1000, 500]]
       = encode_chunks example_primitives example_context [concat [[0, 1000], [- 1000, 500]]]
   \<and> fst (encode_chunks example_primitives example_context [[0, 1000], [- 1000, 500]]) = [199, 244]"
proof -
  have h: "\<forall>chunk \<in> set [[0, 1000], [- 1000, 500 :: sample]]. even (length chunk)" by simp
  note t = chunked_encoding [OF h, of example_primitives example_context]
  have v: "fst (encode_chunks example_primitives example_context [[0, 1000], [- 1000, 500]]) = [199, 244]"
    by code_simp
  from t v show ?thesis by simp
qed

end
